theory Spec2Isabelle
  imports Main
begin

section \<open>Skill instances\<close>

text \<open>
  The module under verification is \<^verbatim>\<open>addons/source-python/plugins/rpg/skill.py\<close>.

  A Python function object has an identity and, once \<^verbatim>\<open>event_callback\<close> has decorated
  it, an attribute \<^verbatim>\<open>_events\<close> holding the tuple of event names. \<open>events f = None\<close>
  says that \<^verbatim>\<open>hasattr(f, '_events')\<close> is false.
\<close>

type_synonym event_name = string

type_synonym addr = nat

record func =
  func_id :: nat
  events :: "event_name list option"

text \<open>
  A value bound in a class body: a function object, or any other object (a string such as
  \<^verbatim>\<open>__qualname__\<close>, \<^verbatim>\<open>None\<close>, a property), which has no \<^verbatim>\<open>_events\<close>.
\<close>

datatype pyval = Function func | Other

text \<open>
  A skill class once \<^verbatim>\<open>_SkillMeta.__init__\<close> has run on it: its name, its bases, the
  dictionary \<^verbatim>\<open>attrs\<close> of its body in insertion order, and the address of the
  \<^verbatim>\<open>defaultdict\<close> bound to \<^verbatim>\<open>cls._event_callbacks\<close>.
\<close>

datatype skill_class =
  SkillClass (cls_name: string) (cls_bases: "skill_class list")
    (cls_attrs: "(string \<times> pyval) list") (event_callbacks: addr)

text \<open>
  The handle that \<^verbatim>\<open>TickRepeat(self._tick)\<close> returns keeps the function it was given.
\<close>

record tick_repeat_handle =
  tick_callback :: pyval

text \<open>
  An instance: its class and its \<^verbatim>\<open>__dict__\<close>. \<^verbatim>\<open>Skill.__init__\<close> binds
  \<^verbatim>\<open>level\<close>; only \<^verbatim>\<open>TickRepeatSkill.__init__\<close> binds \<^verbatim>\<open>tick_repeat\<close>.
\<close>

record skill =
  skill_cls :: skill_class
  level :: int
  tick_repeat :: "tick_repeat_handle option"

text \<open>
  \<^verbatim>\<open>def __init__(self, level=0): self.level = level\<close>. The argument is \<open>None\<close> when the
  caller omits it. The instance is the one \<^verbatim>\<open>type.__call__\<close> has just allocated for
  class \<open>c\<close>, with an empty \<^verbatim>\<open>__dict__\<close>.
\<close>

definition Skill_init :: "skill_class \<Rightarrow> int option \<Rightarrow> skill" where
  "Skill_init c level_arg =
     \<lparr>skill_cls = c,
      level = (case level_arg of None \<Rightarrow> 0 | Some l \<Rightarrow> l),
      tick_repeat = None\<rparr>"

text \<open>
  The two properties only evaluate an expression over \<^verbatim>\<open>self.level\<close>; they assign
  nothing, so each is a function from the instance to the value read.
\<close>

definition upgrade_cost :: "skill \<Rightarrow> int" where
  "upgrade_cost self = (level self + 1) * 5"

definition downgrade_refund :: "skill \<Rightarrow> int" where
  "downgrade_refund self = level self * 4"

section \<open>The callback declaration\<close>

text \<open>
  \<^verbatim>\<open>event_callback(*event_names)\<close> returns a decorator that binds the tuple of names to
  \<^verbatim>\<open>callback._events\<close> and returns the same function object. The body has no check and
  no \<^verbatim>\<open>raise\<close>; the result type still has room for an exception, so that a rejected
  declaration can be told from an accepted one.
\<close>

datatype exn =
  NotImplementedError string | AttributeError string | TypeError string | CallbackError string

definition event_callback :: "event_name list \<Rightarrow> func \<Rightarrow> exn + func" where
  "event_callback event_names callback = Inr (callback\<lparr>events := Some event_names\<rparr>)"

section \<open>The store of dictionaries and lists\<close>

text \<open>
  \<^verbatim>\<open>collections.defaultdict(list)\<close> makes a new dictionary object, and its default factory
  makes a new list object for every key that is read while missing. Both are mutable and
  reached by reference, so they live in a store: an object's address is its index, and
  allocation appends. A dictionary keeps its keys in insertion order and maps each to the
  address of a list.
\<close>

datatype obj = DefaultDict "(event_name \<times> addr) list" | PyList "func list"

type_synonym heap = "obj list"

text \<open>
  Reading an address that holds no object of the expected kind gives the empty
  contents. No operation below produces such an address.
\<close>

definition dict_entries :: "heap \<Rightarrow> addr \<Rightarrow> (event_name \<times> addr) list" where
  "dict_entries h d =
     (if d < length h then (case h ! d of DefaultDict es \<Rightarrow> es | PyList _ \<Rightarrow> []) else [])"

definition list_items :: "heap \<Rightarrow> addr \<Rightarrow> func list" where
  "list_items h l =
     (if l < length h then (case h ! l of PyList fs \<Rightarrow> fs | DefaultDict _ \<Rightarrow> []) else [])"

text \<open>\<^verbatim>\<open>key in d\<close>: a membership test, which never inserts.\<close>

definition dict_contains :: "heap \<Rightarrow> addr \<Rightarrow> event_name \<Rightarrow> bool" where
  "dict_contains h d k = (map_of (dict_entries h d) k \<noteq> None)"

text \<open>
  \<^verbatim>\<open>d[key]\<close> on a \<^verbatim>\<open>defaultdict(list)\<close>: the list bound to the key; a missing key is
  first bound to a new empty list, which changes the dictionary.
\<close>

definition defaultdict_getitem :: "heap \<Rightarrow> addr \<Rightarrow> event_name \<Rightarrow> addr \<times> heap" where
  "defaultdict_getitem h d k =
     (case map_of (dict_entries h d) k of
        Some l \<Rightarrow> (l, h)
      | None \<Rightarrow>
          (let l = length h
           in (l, (h @ [PyList []])[d := DefaultDict (dict_entries h d @ [(k, l)])])))"

text \<open>\<^verbatim>\<open>xs.append(f)\<close> on the list at address \<open>l\<close>.\<close>

definition list_append :: "heap \<Rightarrow> addr \<Rightarrow> func \<Rightarrow> heap" where
  "list_append h l f = h[l := PyList (list_items h l @ [f])]"

section \<open>The registry builder\<close>

text \<open>
  The inner loop of \<^verbatim>\<open>_SkillMeta.__init__\<close>:
  \<^verbatim>\<open>for event_name in f._events: cls._event_callbacks[event_name].append(f)\<close>.
\<close>

fun register_events :: "heap \<Rightarrow> addr \<Rightarrow> func \<Rightarrow> event_name list \<Rightarrow> heap" where
  "register_events h d f [] = h"
| "register_events h d f (event_name # rest) =
     (case defaultdict_getitem h d event_name of
        (l, h') \<Rightarrow> register_events (list_append h' l f) d f rest)"

text \<open>
  The outer loop, over \<^verbatim>\<open>attrs.values()\<close>: a value without \<^verbatim>\<open>_events\<close> is skipped.
\<close>

fun scan_values :: "heap \<Rightarrow> addr \<Rightarrow> pyval list \<Rightarrow> heap" where
  "scan_values h d [] = h"
| "scan_values h d (Other # vs) = scan_values h d vs"
| "scan_values h d (Function f # vs) =
     (case events f of
        None \<Rightarrow> scan_values h d vs
      | Some event_names \<Rightarrow> scan_values (register_events h d f event_names) d vs)"

text \<open>
  \<^verbatim>\<open>_SkillMeta.__init__(cls, name, bases, attrs)\<close>: bind a new, empty
  \<^verbatim>\<open>defaultdict(list)\<close> to \<^verbatim>\<open>cls._event_callbacks\<close>, then scan the values of the class
  body. \<open>bases\<close> is handed to \<^verbatim>\<open>type.__init__\<close> and not read again. The result is the
  class and the store after the scan.
\<close>

definition SkillMeta_init ::
  "heap \<Rightarrow> string \<Rightarrow> skill_class list \<Rightarrow> (string \<times> pyval) list \<Rightarrow> skill_class \<times> heap" where
  "SkillMeta_init h name bases attrs =
     (let d = length h;
          h1 = h @ [DefaultDict []]
      in (SkillClass name bases attrs d, scan_values h1 d (map snd attrs)))"

text \<open>
  What a class's mapping holds, read off the store: the dictionary in key order with each
  list's items, and the callbacks under one event name (none when the key is missing).
\<close>

definition registry :: "heap \<Rightarrow> skill_class \<Rightarrow> (event_name \<times> func list) list" where
  "registry h c = map (\<lambda>(k, l). (k, list_items h l)) (dict_entries h (event_callbacks c))"

definition callbacks_for :: "heap \<Rightarrow> skill_class \<Rightarrow> event_name \<Rightarrow> func list" where
  "callbacks_for h c k =
     (case map_of (dict_entries h (event_callbacks c)) k of
        None \<Rightarrow> []
      | Some l \<Rightarrow> list_items h l)"

section \<open>Dispatch\<close>

text \<open>
  A callback is called as \<^verbatim>\<open>callback(self, **event_args)\<close>. What its body does is not
  part of the module: it is given by \<open>bodies\<close>, from the function's identity to its
  effect on the instance and on the rest of the program's state \<open>'w\<close> (a player's
  health, say), with the exception it raises, if any. These bodies do not touch the
  store of class registries; bodies that do are the subject of a later section.

  The state of a dispatch also logs every call made: the function and the event data.
\<close>

type_synonym ('a, 'w) bodies = "nat \<Rightarrow> skill \<Rightarrow> 'a \<Rightarrow> 'w \<Rightarrow> exn option \<times> skill \<times> 'w"

record ('a, 'w) run_state =
  inst :: skill
  world :: 'w
  calls :: "(func \<times> 'a) list"

definition call :: "('a, 'w) bodies \<Rightarrow> func \<Rightarrow> 'a \<Rightarrow> ('a, 'w) run_state \<Rightarrow> exn option \<times> ('a, 'w) run_state" where
  "call bodies callback event_args st =
     (case bodies (func_id callback) (inst st) event_args (world st) of
        (r, self', w') \<Rightarrow>
          (r, \<lparr>inst = self', world = w', calls = calls st @ [(callback, event_args)]\<rparr>))"

text \<open>
  \<^verbatim>\<open>for callback in ...: callback(self, **event_args)\<close>: an exception leaves the loop
  and is the outcome.
\<close>

fun run_callbacks ::
  "('a, 'w) bodies \<Rightarrow> func list \<Rightarrow> 'a \<Rightarrow> ('a, 'w) run_state \<Rightarrow> exn option \<times> ('a, 'w) run_state" where
  "run_callbacks bodies [] event_args st = (None, st)"
| "run_callbacks bodies (callback # rest) event_args st =
     (case call bodies callback event_args st of
        (Some e, st') \<Rightarrow> (Some e, st')
      | (None, st') \<Rightarrow> run_callbacks bodies rest event_args st')"

text \<open>
  \<^verbatim>\<open>Skill.execute_callbacks(self, event_name, **event_args)\<close>. \<^verbatim>\<open>self._event_callbacks\<close>
  is found on the instance's own class, since the metaclass binds it on every class.
  The result is the exception raised (if any), the state of the dispatch and the store.
\<close>

definition execute_callbacks ::
  "('a, 'w) bodies \<Rightarrow> heap \<Rightarrow> event_name \<Rightarrow> 'a \<Rightarrow> ('a, 'w) run_state
     \<Rightarrow> exn option \<times> ('a, 'w) run_state \<times> heap" where
  "execute_callbacks bodies h event_name event_args st =
     (let d = event_callbacks (skill_cls (inst st))
      in if \<not> dict_contains h d event_name then (None, st, h)
         else (case defaultdict_getitem h d event_name of
                 (l, h') \<Rightarrow>
                   (case run_callbacks bodies (list_items h' l) event_args st of
                      (r, st') \<Rightarrow> (r, st', h'))))"

text \<open>
  The callbacks of a list run in turn, each from the instance and the world the one before
  left, with the same event data: the state after the last one, or \<open>None\<close> when one of
  them raises.
\<close>

fun run_bodies ::
  "('a, 'w) bodies \<Rightarrow> func list \<Rightarrow> 'a \<Rightarrow> skill \<Rightarrow> 'w \<Rightarrow> (skill \<times> 'w) option" where
  "run_bodies bodies [] a s w = Some (s, w)"
| "run_bodies bodies (f # fs) a s w =
     (case bodies (func_id f) s a w of
        (None, s', w') \<Rightarrow> run_bodies bodies fs a s' w'
      | (Some e, s', w') \<Rightarrow> None)"

section \<open>Dispatch with callbacks that reach the store\<close>

text \<open>
  A callback receives \<^verbatim>\<open>self\<close>, and \<^verbatim>\<open>self._event_callbacks\<close> is the class's
  \<^verbatim>\<open>defaultdict\<close> itself, not a copy: the body of a callback can read and write the
  store. Here a body also takes the store and returns it.
\<close>

type_synonym ('a, 'w) live_bodies =
  "nat \<Rightarrow> skill \<Rightarrow> 'a \<Rightarrow> 'w \<Rightarrow> heap \<Rightarrow> exn option \<times> skill \<times> 'w \<times> heap"

definition call_live ::
  "('a, 'w) live_bodies \<Rightarrow> func \<Rightarrow> 'a \<Rightarrow> ('a, 'w) run_state \<Rightarrow> heap
     \<Rightarrow> exn option \<times> ('a, 'w) run_state \<times> heap" where
  "call_live bodies callback event_args st h =
     (case bodies (func_id callback) (inst st) event_args (world st) h of
        (r, self', w', h') \<Rightarrow>
          (r, \<lparr>inst = self', world = w', calls = calls st @ [(callback, event_args)]\<rparr>, h'))"

text \<open>
  \<^verbatim>\<open>for callback in lst\<close> over a list object that a callback may change: the iterator
  keeps an index, and at every round reads the list as it is then; it stops when the
  index reaches the length. A callback that appends to the list at every call keeps the
  loop running for ever, which is the result \<open>None\<close>.
\<close>

partial_function (option) iterate_callbacks ::
  "('a, 'w) live_bodies \<Rightarrow> addr \<Rightarrow> nat \<Rightarrow> 'a \<Rightarrow> ('a, 'w) run_state \<Rightarrow> heap
     \<Rightarrow> (exn option \<times> ('a, 'w) run_state \<times> heap) option" where
  "iterate_callbacks bodies l i event_args st h =
     (if i < length (list_items h l)
      then (case call_live bodies (list_items h l ! i) event_args st h of
              (Some e, st', h') \<Rightarrow> Some (Some e, st', h')
            | (None, st', h') \<Rightarrow> iterate_callbacks bodies l (Suc i) event_args st' h')
      else Some (None, st, h))"

text \<open>
  \<^verbatim>\<open>Skill.execute_callbacks\<close> again, with such callbacks:
  \<^verbatim>\<open>self._event_callbacks[event_name]\<close> is evaluated once, to the list object iterated.
\<close>

definition execute_callbacks_live ::
  "('a, 'w) live_bodies \<Rightarrow> heap \<Rightarrow> event_name \<Rightarrow> 'a \<Rightarrow> ('a, 'w) run_state
     \<Rightarrow> (exn option \<times> ('a, 'w) run_state \<times> heap) option" where
  "execute_callbacks_live bodies h event_name event_args st =
     (let d = event_callbacks (skill_cls (inst st))
      in if \<not> dict_contains h d event_name then Some (None, st, h)
         else (case defaultdict_getitem h d event_name of
                 (l, h') \<Rightarrow> iterate_callbacks bodies l 0 event_args st h'))"

text \<open>
  The body that a callback is while the store is \<open>h\<close>, for a dispatch that keeps the
  store out of the callbacks' reach.
\<close>

definition frozen :: "('a, 'w) live_bodies \<Rightarrow> heap \<Rightarrow> ('a, 'w) bodies" where
  "frozen bodies h i self a w = (case bodies i self a w h of (r, self', w', h') \<Rightarrow> (r, self', w'))"

text \<open>Bodies that leave the store as they find it, whatever they are called with.\<close>

definition reads_only :: "('a, 'w) live_bodies \<Rightarrow> bool" where
  "reads_only bodies = (\<forall>i self a w h. snd (snd (snd (bodies i self a w h))) = h)"

text \<open>Bodies that have no use for the store, as bodies that are handed it.\<close>

definition lifted :: "('a, 'w) bodies \<Rightarrow> ('a, 'w) live_bodies" where
  "lifted bodies i self a w h = (case bodies i self a w of (r, self', w') \<Rightarrow> (r, self', w', h))"

section \<open>The timed specialisation\<close>

text \<open>
  Python's method resolution order is the C3 linearisation: the class, then the merge of
  the linearisations of its bases and of the list of bases. The merge takes, again and
  again, the head of the first sequence whose head is in the tail of no sequence, and
  removes it from every sequence it heads; when no head qualifies, Python refuses to
  create the class, and the result is \<open>None\<close>. The class \<^verbatim>\<open>object\<close>, last in every
  order, binds none of the names looked up here and is left out.
\<close>

definition good_head :: "skill_class list list \<Rightarrow> skill_class \<Rightarrow> bool" where
  "good_head seqs k = list_all (\<lambda>s. k \<notin> set (tl s)) seqs"

function merge :: "skill_class list list \<Rightarrow> skill_class list option" where
  "merge seqs =
     (if filter (\<lambda>s. s \<noteq> []) seqs = [] then Some []
      else (case find (good_head (filter (\<lambda>s. s \<noteq> []) seqs))
                   (map hd (filter (\<lambda>s. s \<noteq> []) seqs)) of
              None \<Rightarrow> None
            | Some k \<Rightarrow>
                (case merge (map (\<lambda>s. if hd s = k then tl s else s)
                               (filter (\<lambda>s. s \<noteq> []) seqs)) of
                   None \<Rightarrow> None
                 | Some r \<Rightarrow> Some (k # r))))"
  by pat_completeness auto
termination
proof (relation "measure (\<lambda>seqs. sum_list (map length seqs))")
  show "wf (measure (\<lambda>seqs. sum_list (map length seqs)))" by simp
next
  fix seqs :: "skill_class list list" and k
  assume ne: "filter (\<lambda>s. s \<noteq> []) seqs \<noteq> []"
    and f: "find (good_head (filter (\<lambda>s. s \<noteq> []) seqs))
              (map hd (filter (\<lambda>s. s \<noteq> []) seqs)) = Some k"
  let ?ss = "filter (\<lambda>s. s \<noteq> []) seqs"
  let ?g = "\<lambda>s. if hd s = k then tl s else s"
  have le: "sum_list (map length (map ?g xs)) \<le> sum_list (map length xs)"
    for xs :: "skill_class list list"
    by (induction xs) auto
  have lt: "(\<exists>s \<in> set xs. hd s = k) \<Longrightarrow> [] \<notin> set xs \<Longrightarrow>
      sum_list (map length (map ?g xs)) < sum_list (map length xs)"
    for xs :: "skill_class list list"
  proof (induction xs)
    case Nil
    then show ?case by simp
  next
    case (Cons x xs)
    have x: "x \<noteq> []" using Cons.prems(2) by auto
    show ?case
    proof (cases "hd x = k")
      case True
      then have "length (?g x) < length x" using x by simp
      then show ?thesis using le [of xs] by simp
    next
      case False
      then have "\<exists>s \<in> set xs. hd s = k" using Cons.prems(1) by auto
      moreover have "[] \<notin> set xs" using Cons.prems(2) by auto
      ultimately show ?thesis using Cons.IH False by simp
    qed
  qed
  have "k \<in> set (map hd ?ss)"
    using f by (metis find_Some_iff nth_mem)
  then have ex: "\<exists>s \<in> set ?ss. hd s = k" by auto
  have nn: "[] \<notin> set ?ss" by simp
  have fl: "sum_list (map length (filter (\<lambda>s. s \<noteq> []) xs)) \<le> sum_list (map length xs)"
    for xs :: "skill_class list list"
    by (induction xs) auto
  from lt [OF ex nn] fl [of seqs]
  show "(map ?g ?ss, seqs) \<in> measure (\<lambda>seqs. sum_list (map length seqs))"
    by simp
qed

declare merge.simps [simp del]

fun mro :: "skill_class \<Rightarrow> skill_class list option" where
  "mro (SkillClass name bases attrs d) =
     (case those (map mro bases) of
        None \<Rightarrow> None
      | Some ms \<Rightarrow>
          (case merge (ms @ [bases]) of
             None \<Rightarrow> None
           | Some r \<Rightarrow> Some (SkillClass name bases attrs d # r)))"

text \<open>
  Attribute lookup on a class: the binding in the first class of the resolution order
  whose body binds the name.
\<close>

definition binds :: "string \<Rightarrow> skill_class \<Rightarrow> bool" where
  "binds a k = (map_of (cls_attrs k) a \<noteq> None)"

definition class_lookup :: "skill_class \<Rightarrow> string \<Rightarrow> pyval option" where
  "class_lookup c a =
     (case mro c of
        None \<Rightarrow> None
      | Some ks \<Rightarrow>
          (case find (binds a) ks of None \<Rightarrow> None | Some k \<Rightarrow> map_of (cls_attrs k) a))"

text \<open>
  \<^verbatim>\<open>TickRepeatSkill._tick(self, *args, **kwargs)\<close>: the body is a single \<^verbatim>\<open>raise\<close>.
\<close>

definition TickRepeatSkill_tick :: "skill \<Rightarrow> 'a \<Rightarrow> 'w \<Rightarrow> exn option \<times> skill \<times> 'w" where
  "TickRepeatSkill_tick self args w =
     (Some (NotImplementedError ''_tick method not implemented by a TickRepeatSkill class.''),
      self, w)"

text \<open>
  The function object that the class body of \<^verbatim>\<open>TickRepeatSkill\<close> binds to \<^verbatim>\<open>_tick\<close>. It is
  not decorated. Identity 0 is kept for it: a program that has loaded the module runs
  \<open>TickRepeatSkill_tick\<close> for it, and the bodies it was given for every other function.
\<close>

definition tick_function :: func where
  "tick_function = \<lparr>func_id = 0, events = None\<rparr>"

definition with_module :: "('a, 'w) bodies \<Rightarrow> ('a, 'w) bodies" where
  "with_module bodies = bodies(func_id tick_function := TickRepeatSkill_tick)"

text \<open>
  The bodies of the two classes of the module, as \<^verbatim>\<open>attrs\<close>: the names bound, in order.
  No value carries \<^verbatim>\<open>_events\<close>. The body of \<^verbatim>\<open>TickRepeatSkill\<close> calls \<^verbatim>\<open>super()\<close>, so
  the compiler adds \<^verbatim>\<open>__classcell__\<close> to the namespace the metaclass receives.
\<close>

definition Skill_attrs :: "(string \<times> pyval) list" where
  "Skill_attrs =
     [(''__module__'', Other), (''__qualname__'', Other), (''__doc__'', Other),
      (''class_id'', Other), (''name'', Other), (''description'', Other),
      (''max_level'', Other), (''__init__'', Other), (''upgrade_cost'', Other),
      (''downgrade_refund'', Other), (''execute_callbacks'', Other)]"

definition TickRepeatSkill_attrs :: "(string \<times> pyval) list" where
  "TickRepeatSkill_attrs =
     [(''__module__'', Other), (''__qualname__'', Other), (''__doc__'', Other),
      (''__init__'', Other), (''_tick'', Function tick_function), (''__classcell__'', Other)]"

text \<open>
  A class that never overrides \<^verbatim>\<open>_tick\<close>, given the class \<^verbatim>\<open>TickRepeatSkill\<close>: that
  class is in its resolution order, and no class before it there binds \<^verbatim>\<open>_tick\<close>.
\<close>

definition never_overrides_tick :: "skill_class \<Rightarrow> skill_class \<Rightarrow> bool" where
  "never_overrides_tick tick_c c =
     (case mro c of
        None \<Rightarrow> False
      | Some ks \<Rightarrow>
          tick_c \<in> set ks
          \<and> list_all (\<lambda>k. \<not> binds ''_tick'' k) (takeWhile (\<lambda>k. k \<noteq> tick_c) ks))"

text \<open>
  Loading the module defines \<^verbatim>\<open>Skill\<close>, then \<^verbatim>\<open>TickRepeatSkill(Skill)\<close>; the metaclass
  runs on each.
\<close>

definition load_module :: "heap \<Rightarrow> skill_class \<times> skill_class \<times> heap" where
  "load_module h =
     (case SkillMeta_init h ''Skill'' [] Skill_attrs of
        (skill_c, h1) \<Rightarrow>
          (case SkillMeta_init h1 ''TickRepeatSkill'' [skill_c] TickRepeatSkill_attrs of
             (tick_c, h2) \<Rightarrow> (skill_c, tick_c, h2)))"

text \<open>
  \<^verbatim>\<open>listeners.tick.TickRepeat\<close> belongs to the host engine. The spec says of it that
  construction hands the scheduler a callback reference and receives a handle, and that
  the scheduler invokes the callback at each interval. The handle keeps the callback;
  \<open>trigger\<close> is one such invocation.
\<close>

definition TickRepeat :: "pyval \<Rightarrow> tick_repeat_handle" where
  "TickRepeat callback = \<lparr>tick_callback = callback\<rparr>"

definition trigger :: "('a, 'w) bodies \<Rightarrow> skill \<Rightarrow> 'a \<Rightarrow> 'w \<Rightarrow> exn option \<times> skill \<times> 'w" where
  "trigger bodies self args w =
     (case tick_repeat self of
        None \<Rightarrow> (Some (AttributeError ''tick_repeat''), self, w)
      | Some t \<Rightarrow>
          (case tick_callback t of
             Function f \<Rightarrow> with_module bodies (func_id f) self args w
           | Other \<Rightarrow> (Some (CallbackError ''not callable''), self, w)))"

text \<open>
  \<^verbatim>\<open>super().__init__(level)\<close> inside \<^verbatim>\<open>TickRepeatSkill.__init__\<close>, on an instance of class
  \<open>c\<close>. \<^verbatim>\<open>super()\<close> raises \<^verbatim>\<open>TypeError\<close> unless \<^verbatim>\<open>TickRepeatSkill\<close> is in the
  resolution order of \<open>c\<close>; \<^verbatim>\<open>__init__\<close> is then looked up in the classes after it. Found
  on \<^verbatim>\<open>Skill\<close>, it is \<open>Skill_init\<close>. Found on another class, it is a function defined
  outside the module: what it does is given by \<open>inits\<close>, from the function's identity.
  Found nowhere, it is \<^verbatim>\<open>object.__init__\<close>, which takes no argument.
\<close>

type_synonym 'w inits = "nat \<Rightarrow> skill_class \<Rightarrow> int \<Rightarrow> 'w \<Rightarrow> (exn + skill) \<times> 'w"

definition super_init ::
  "'w inits \<Rightarrow> skill_class \<Rightarrow> skill_class \<Rightarrow> skill_class \<Rightarrow> int \<Rightarrow> 'w \<Rightarrow> (exn + skill) \<times> 'w" where
  "super_init inits skill_c tick_c c lv w =
     (case mro c of
        None \<Rightarrow> (Inl (TypeError ''inconsistent method resolution order''), w)
      | Some ks \<Rightarrow>
          if tick_c \<notin> set ks
          then (Inl (TypeError ''super(type, obj): obj must be an instance or subtype of type''), w)
          else (case find (binds ''__init__'') (tl (dropWhile (\<lambda>k. k \<noteq> tick_c) ks)) of
                  None \<Rightarrow> (Inl (TypeError ''object.__init__() takes exactly one argument''), w)
                | Some k \<Rightarrow>
                    if k = skill_c then (Inr (Skill_init c (Some lv)), w)
                    else (case map_of (cls_attrs k) ''__init__'' of
                            Some (Function f) \<Rightarrow> inits (func_id f) c lv w
                          | _ \<Rightarrow> (Inl (TypeError ''object is not callable''), w))))"

text \<open>
  \<^verbatim>\<open>TickRepeatSkill.__init__(self, level=0)\<close>: \<^verbatim>\<open>super().__init__(level)\<close>, then
  \<^verbatim>\<open>self.tick_repeat = TickRepeat(self._tick)\<close>. \<^verbatim>\<open>self._tick\<close> is looked up on the
  instance's class, in resolution order; a class without it raises \<^verbatim>\<open>AttributeError\<close>.
\<close>

definition TickRepeatSkill_init ::
  "'w inits \<Rightarrow> skill_class \<Rightarrow> skill_class \<Rightarrow> skill_class \<Rightarrow> int option \<Rightarrow> 'w
     \<Rightarrow> (exn + skill) \<times> 'w" where
  "TickRepeatSkill_init inits skill_c tick_c c level_arg w =
     (case super_init inits skill_c tick_c c (case level_arg of None \<Rightarrow> 0 | Some l \<Rightarrow> l) w of
        (Inl e, w') \<Rightarrow> (Inl e, w')
      | (Inr self, w') \<Rightarrow>
          (case class_lookup c ''_tick'' of
             None \<Rightarrow> (Inl (AttributeError ''_tick''), w')
           | Some m \<Rightarrow> (Inr (self\<lparr>tick_repeat := Some (TickRepeat m)\<rparr>), w')))"

section \<open>What the class body declares\<close>

text \<open>
  The callbacks that a value of a class body contributes under event name \<open>k\<close>: the
  function itself, once for every occurrence of \<open>k\<close> in its \<^verbatim>\<open>_events\<close>. The callbacks a
  class body declares for \<open>k\<close> are those of its values, in the order of the body.
\<close>

definition tagged :: "pyval \<Rightarrow> event_name \<Rightarrow> func list" where
  "tagged v k =
     (case v of
        Other \<Rightarrow> []
      | Function f \<Rightarrow>
          (case events f of None \<Rightarrow> [] | Some ns \<Rightarrow> map (\<lambda>_. f) (filter (\<lambda>n. n = k) ns)))"

definition declared_for :: "pyval list \<Rightarrow> event_name \<Rightarrow> func list" where
  "declared_for vs k = concat (map (\<lambda>v. tagged v k) vs)"

text \<open>
  The objects that make up a class's mapping: the dictionary and the lists it binds.
\<close>

definition owned :: "heap \<Rightarrow> skill_class \<Rightarrow> addr set" where
  "owned h c = insert (event_callbacks c) (snd ` set (dict_entries h (event_callbacks c)))"

text \<open>
  The shape of a dictionary under construction: it binds distinct lists, each allocated
  after the dictionary itself.
\<close>

definition owns :: "heap \<Rightarrow> addr \<Rightarrow> bool" where
  "owns h d =
     (d < length h \<and> h ! d = DefaultDict (dict_entries h d)
      \<and> distinct (map snd (dict_entries h d))
      \<and> (\<forall>l \<in> snd ` set (dict_entries h d).
            d < l \<and> l < length h \<and> h ! l = PyList (list_items h l)))"

text \<open>One round of the inner loop, and the callbacks bound to a key of a dictionary.\<close>

definition register_one :: "heap \<Rightarrow> addr \<Rightarrow> func \<Rightarrow> event_name \<Rightarrow> heap" where
  "register_one h d f k = (case defaultdict_getitem h d k of (l, h') \<Rightarrow> list_append h' l f)"

definition callbacks_at :: "heap \<Rightarrow> addr \<Rightarrow> event_name \<Rightarrow> func list" where
  "callbacks_at h d k =
     (case map_of (dict_entries h d) k of None \<Rightarrow> [] | Some l \<Rightarrow> list_items h l)"

section \<open>The skills of the spec's scenarios\<close>

text \<open>
  \<^verbatim>\<open>Bonus_Health(Skill)\<close> declares one callback on \<^verbatim>\<open>player_spawn\<close>;
  \<^verbatim>\<open>Bonus_Health_Plus(Bonus_Health)\<close> declares a second one on the same event;
  \<^verbatim>\<open>Plain_Bonus(Bonus_Health)\<close> declares none. The event data is the player's name and
  the world is the player's health.
\<close>

definition give_health :: func where
  "give_health = \<lparr>func_id = 1, events = Some [''player_spawn'']\<rparr>"

definition give_more :: func where
  "give_more = \<lparr>func_id = 2, events = Some [''player_spawn'']\<rparr>"

definition failing :: func where
  "failing = \<lparr>func_id = 3, events = Some [''player_spawn'']\<rparr>"

definition scenario_bodies :: "(string, int) bodies" where
  "scenario_bodies i self args w =
     (if i = 1 then (None, self, w + level self * 25)
      else if i = 2 then (None, self, w + 1)
      else (Some (CallbackError ''boom''), self, w))"

definition module_heap :: heap where
  "module_heap = snd (snd (load_module []))"

definition Skill_class :: skill_class where
  "Skill_class = fst (load_module [])"

definition TickRepeatSkill_class :: skill_class where
  "TickRepeatSkill_class = fst (snd (load_module []))"

definition Bonus_Health_attrs :: "(string \<times> pyval) list" where
  "Bonus_Health_attrs =
     [(''__module__'', Other), (''__qualname__'', Other), (''__doc__'', Other),
      (''max_level'', Other), (''_give_health'', Function give_health)]"

definition Bonus_Health :: skill_class where
  "Bonus_Health = fst (SkillMeta_init module_heap ''Bonus_Health'' [Skill_class] Bonus_Health_attrs)"

definition heap_B :: heap where
  "heap_B = snd (SkillMeta_init module_heap ''Bonus_Health'' [Skill_class] Bonus_Health_attrs)"

definition Bonus_Health_Plus_attrs :: "(string \<times> pyval) list" where
  "Bonus_Health_Plus_attrs =
     [(''__module__'', Other), (''__qualname__'', Other),
      (''_give_more'', Function give_more)]"

definition Bonus_Health_Plus :: skill_class where
  "Bonus_Health_Plus =
     fst (SkillMeta_init heap_B ''Bonus_Health_Plus'' [Bonus_Health] Bonus_Health_Plus_attrs)"

definition heap_P :: heap where
  "heap_P =
     snd (SkillMeta_init heap_B ''Bonus_Health_Plus'' [Bonus_Health] Bonus_Health_Plus_attrs)"

definition Plain_Bonus_attrs :: "(string \<times> pyval) list" where
  "Plain_Bonus_attrs = [(''__module__'', Other), (''__qualname__'', Other)]"

definition Plain_Bonus :: skill_class where
  "Plain_Bonus = fst (SkillMeta_init heap_P ''Plain_Bonus'' [Bonus_Health] Plain_Bonus_attrs)"

definition heap_N :: heap where
  "heap_N = snd (SkillMeta_init heap_P ''Plain_Bonus'' [Bonus_Health] Plain_Bonus_attrs)"

text \<open>
  \<^verbatim>\<open>Double_Bonus(Skill)\<close> declares both callbacks in one body; \<^verbatim>\<open>Fragile(Skill)\<close>
  declares a callback that raises between the two.
\<close>

definition Double_Bonus_attrs :: "(string \<times> pyval) list" where
  "Double_Bonus_attrs =
     [(''__module__'', Other), (''__qualname__'', Other),
      (''_give_health'', Function give_health), (''_give_more'', Function give_more)]"

definition Double_Bonus :: skill_class where
  "Double_Bonus = fst (SkillMeta_init heap_N ''Double_Bonus'' [Skill_class] Double_Bonus_attrs)"

definition heap_D :: heap where
  "heap_D = snd (SkillMeta_init heap_N ''Double_Bonus'' [Skill_class] Double_Bonus_attrs)"

definition Fragile_attrs :: "(string \<times> pyval) list" where
  "Fragile_attrs =
     [(''__module__'', Other), (''__qualname__'', Other),
      (''_give_health'', Function give_health), (''_failing'', Function failing),
      (''_give_more'', Function give_more)]"

definition Fragile :: skill_class where
  "Fragile = fst (SkillMeta_init heap_D ''Fragile'' [Skill_class] Fragile_attrs)"

definition heap_F :: heap where
  "heap_F = snd (SkillMeta_init heap_D ''Fragile'' [Skill_class] Fragile_attrs)"

text \<open>An instance of class \<open>c\<close> at level 2, a player at 100 health, no call made yet.\<close>

definition at_spawn :: "skill_class \<Rightarrow> (string, int) run_state" where
  "at_spawn c = \<lparr>inst = Skill_init c (Some 2), world = 100, calls = []\<rparr>"

text \<open>
  \<^verbatim>\<open>Regeneration(TickRepeatSkill)\<close> binds no \<^verbatim>\<open>_tick\<close> of its own.
\<close>

definition Regeneration_attrs :: "(string \<times> pyval) list" where
  "Regeneration_attrs =
     [(''__module__'', Other), (''__qualname__'', Other), (''__doc__'', Other),
      (''max_level'', Other)]"

definition Regeneration :: skill_class where
  "Regeneration =
     fst (SkillMeta_init module_heap ''Regeneration'' [TickRepeatSkill_class] Regeneration_attrs)"

text \<open>
  \<^verbatim>\<open>Slow(Skill)\<close> and \<^verbatim>\<open>Mixed(Slow, TickRepeatSkill)\<close> bind no \<^verbatim>\<open>_tick\<close>;
  \<^verbatim>\<open>Poison(TickRepeatSkill)\<close> binds none, \<^verbatim>\<open>Burn(TickRepeatSkill)\<close> overrides it, and
  \<^verbatim>\<open>Toxic(Poison, Burn)\<close> binds none. None declares a callback; their mappings are
  at addresses 2 to 6.
\<close>

definition plain_attrs :: "(string \<times> pyval) list" where
  "plain_attrs = [(''__module__'', Other), (''__qualname__'', Other)]"

definition burn_tick :: func where
  "burn_tick = \<lparr>func_id = 9, events = None\<rparr>"

definition Burn_attrs :: "(string \<times> pyval) list" where
  "Burn_attrs =
     [(''__module__'', Other), (''__qualname__'', Other), (''_tick'', Function burn_tick)]"

definition Slow :: skill_class where
  "Slow = SkillClass ''Slow'' [Skill_class] plain_attrs 2"

definition Mixed :: skill_class where
  "Mixed = SkillClass ''Mixed'' [Slow, TickRepeatSkill_class] plain_attrs 3"

definition Poison :: skill_class where
  "Poison = SkillClass ''Poison'' [TickRepeatSkill_class] plain_attrs 4"

definition Burn :: skill_class where
  "Burn = SkillClass ''Burn'' [TickRepeatSkill_class] Burn_attrs 5"

definition Toxic :: skill_class where
  "Toxic = SkillClass ''Toxic'' [Poison, Burn] plain_attrs 6"

text \<open>No function of these programs is an \<^verbatim>\<open>__init__\<close> defined outside the module.\<close>

definition no_inits :: "int inits" where
  "no_inits i c lv w = (Inl (TypeError ''no such function''), w)"

text \<open>
  A callback whose body is \<^verbatim>\<open>self._event_callbacks['player_death']\<close>, whatever function
  it is, and the store after it has run once from \<open>heap_N\<close> on an instance of
  \<open>Bonus_Health\<close>.
\<close>

definition peeking :: "(string, int) live_bodies" where
  "peeking i self a w h =
     (None, self, w, snd (defaultdict_getitem h (event_callbacks (skill_cls self)) ''player_death''))"

definition heap_peeked :: heap where
  "heap_peeked =
     [DefaultDict [], DefaultDict [],
      DefaultDict [(''player_spawn'', 3), (''player_death'', 7)], PyList [give_health],
      DefaultDict [(''player_spawn'', 5)], PyList [give_more], DefaultDict [], PyList []]"

section \<open>Costs\<close>

text \<open>
  C3: for an instance at level \<open>L \<ge> 0\<close>, \<open>upgrade_cost\<close> is \<open>(L + 1) * 5\<close> and
  \<open>downgrade_refund\<close> is \<open>L * 4\<close>. Each read is a function of the instance alone and
  returns a number only: it has no state to change.
\<close>

theorem costs_at_level:
  assumes "level self = L" and "0 \<le> L"
  shows "upgrade_cost self = (L + 1) * 5 \<and> downgrade_refund self = L * 4"
  using assms by (simp add: upgrade_cost_def downgrade_refund_def)

theorem costs_at_level_witness:
  "level (Skill_init (SkillClass ''Bonus_Health'' [] [] 0) (Some 2)) = 2
   \<and> (0::int) \<le> 2
   \<and> upgrade_cost (Skill_init (SkillClass ''Bonus_Health'' [] [] 0) (Some 2)) = 15
   \<and> downgrade_refund (Skill_init (SkillClass ''Bonus_Health'' [] [] 0) (Some 2)) = 8"
proof -
  have l: "level (Skill_init (SkillClass ''Bonus_Health'' [] [] 0) (Some 2)) = 2"
    by (simp add: Skill_init_def)
  have p: "(0::int) \<le> 2" by simp
  show ?thesis using l costs_at_level [OF l p] by simp
qed

text \<open>
  C10: the constructor stores its argument as it is, whatever its sign and whatever the
  class's \<^verbatim>\<open>max_level\<close>; an omitted argument gives level 0; the two costs are computed
  from the stored value.
\<close>

theorem init_stores_level_verbatim:
  "level (Skill_init c (Some l)) = l
   \<and> level (Skill_init c None) = 0
   \<and> upgrade_cost (Skill_init c (Some l)) = (l + 1) * 5
   \<and> downgrade_refund (Skill_init c (Some l)) = l * 4"
  by (simp add: Skill_init_def upgrade_cost_def downgrade_refund_def)

section \<open>The store under registration\<close>

lemma dict_entries_update:
  "dict_entries (h[a := x]) d =
     (if a = d \<and> d < length h then (case x of DefaultDict es \<Rightarrow> es | PyList _ \<Rightarrow> [])
      else dict_entries h d)"
  by (simp add: dict_entries_def)

lemma list_items_update:
  "list_items (h[a := x]) l =
     (if a = l \<and> l < length h then (case x of PyList fs \<Rightarrow> fs | DefaultDict _ \<Rightarrow> [])
      else list_items h l)"
  by (simp add: list_items_def)

lemma dict_entries_append:
  "d < length h \<Longrightarrow> dict_entries (h @ ext) d = dict_entries h d"
  by (simp add: dict_entries_def nth_append)

lemma list_items_append:
  "l < length h \<Longrightarrow> list_items (h @ ext) l = list_items h l"
  by (simp add: list_items_def nth_append)

lemma owns_entry:
  "owns h d \<Longrightarrow> map_of (dict_entries h d) k = Some l \<Longrightarrow>
     d < l \<and> l < length h \<and> h ! l = PyList (list_items h l)"
  unfolding owns_def by (metis (no_types, lifting) image_eqI map_of_SomeD snd_conv)

lemma owns_inj:
  "owns h d \<Longrightarrow> map_of (dict_entries h d) k = Some l \<Longrightarrow>
     map_of (dict_entries h d) k' = Some l \<Longrightarrow> k' = k"
proof -
  assume o: "owns h d" and a: "map_of (dict_entries h d) k = Some l"
    and b: "map_of (dict_entries h d) k' = Some l"
  have "(k, l) \<in> set (dict_entries h d)" "(k', l) \<in> set (dict_entries h d)"
    using a b by (auto dest: map_of_SomeD)
  moreover have "inj_on snd (set (dict_entries h d))"
    using o by (simp add: owns_def distinct_map)
  ultimately show ?thesis by (fastforce simp: inj_on_def)
qed

lemma register_one_present:
  assumes "owns h d" and "map_of (dict_entries h d) k = Some l"
  shows "register_one h d f k = h[l := PyList (list_items h l @ [f])]"
  using assms by (simp add: register_one_def defaultdict_getitem_def list_append_def)

lemma register_one_missing:
  assumes "owns h d" and "map_of (dict_entries h d) k = None"
  shows "register_one h d f k =
           (h @ [PyList [f]])[d := DefaultDict (dict_entries h d @ [(k, length h)])]"
proof -
  have d: "d < length h" using assms(1) by (simp add: owns_def)
  let ?h' = "(h @ [PyList []])[d := DefaultDict (dict_entries h d @ [(k, length h)])]"
  have "list_items ?h' (length h) = []"
    using d by (simp add: list_items_def nth_append)
  then have "register_one h d f k = ?h'[length h := PyList [f]]"
    using assms(2) by (simp add: register_one_def defaultdict_getitem_def list_append_def Let_def)
  also have "\<dots> = (h @ [PyList [f]])[d := DefaultDict (dict_entries h d @ [(k, length h)])]"
    using d by (simp add: list_update_swap list_update_append)
  finally show ?thesis .
qed

lemma owns_register_one:
  assumes "owns h d"
  shows "owns (register_one h d f k) d"
proof (cases "map_of (dict_entries h d) k")
  case None
  have d: "d < length h" using assms by (simp add: owns_def)
  have notin: "length h \<notin> snd ` set (dict_entries h d)"
    using assms by (auto simp: owns_def)
  show ?thesis
    unfolding register_one_missing [OF assms None]
    using assms d notin
    by (auto simp: owns_def dict_entries_update list_items_update nth_list_update nth_append
          list_items_def)
next
  case (Some l)
  have l: "d < l" "l < length h" using owns_entry [OF assms Some] by auto
  show ?thesis
    unfolding register_one_present [OF assms Some]
    using assms l
    by (auto simp: owns_def dict_entries_update list_items_update nth_list_update)
qed

lemma callbacks_at_register_one:
  assumes "owns h d"
  shows "callbacks_at (register_one h d f k) d k' =
           (if k' = k then callbacks_at h d k @ [f] else callbacks_at h d k')"
proof (cases "map_of (dict_entries h d) k")
  case None
  have d: "d < length h" using assms by (simp add: owns_def)
  let ?h = "(h @ [PyList [f]])[d := DefaultDict (dict_entries h d @ [(k, length h)])]"
  have es: "dict_entries ?h d = dict_entries h d @ [(k, length h)]"
    using d by (simp add: dict_entries_update)
  have new: "list_items ?h (length h) = [f]"
    using d by (simp add: list_items_def nth_append)
  have old: "list_items ?h l' = list_items h l'" if "map_of (dict_entries h d) k' = Some l'" for l'
  proof -
    have "l' < length h" "d < l'" using owns_entry [OF assms that] by auto
    then show ?thesis by (simp add: list_items_update list_items_append)
  qed
  show ?thesis
  proof (cases "map_of (dict_entries h d) k'")
    case n: None
    then show ?thesis
      unfolding register_one_missing [OF assms None]
      using None new by (simp add: callbacks_at_def es map_add_def)
  next
    case (Some l')
    then have "k' \<noteq> k" using None by auto
    then show ?thesis
      unfolding register_one_missing [OF assms None]
      using Some old [OF Some] by (simp add: callbacks_at_def es map_add_def)
  qed
next
  case (Some l)
  have l: "d < l" "l < length h" using owns_entry [OF assms Some] by auto
  let ?h = "h[l := PyList (list_items h l @ [f])]"
  have es: "dict_entries ?h d = dict_entries h d"
    using l by (simp add: dict_entries_update)
  show ?thesis
  proof (cases "map_of (dict_entries h d) k'")
    case None
    then have "k' \<noteq> k" using Some by auto
    then show ?thesis
      unfolding register_one_present [OF assms Some]
      using None by (simp add: callbacks_at_def es)
  next
    case s: (Some l')
    show ?thesis
    proof (cases "l' = l")
      case True
      then have "k' = k" using owns_inj [OF assms Some] s by blast
      then show ?thesis
        unfolding register_one_present [OF assms Some]
        using Some l by (simp add: callbacks_at_def es list_items_update)
    next
      case False
      then have "k' \<noteq> k" using Some s by auto
      then show ?thesis
        unfolding register_one_present [OF assms Some]
        using s False by (simp add: callbacks_at_def es list_items_update)
    qed
  qed
qed

lemma frame_register_one:
  assumes "owns h d"
  shows "take d (register_one h d f k) = take d h \<and> length h \<le> length (register_one h d f k)"
proof (cases "map_of (dict_entries h d) k")
  case None
  have d: "d < length h" using assms by (simp add: owns_def)
  show ?thesis
    unfolding register_one_missing [OF assms None] using d by simp
next
  case (Some l)
  have l: "d < l" "l < length h" using owns_entry [OF assms Some] by auto
  show ?thesis
    unfolding register_one_present [OF assms Some] using l by simp
qed

lemma register_events_step:
  "register_events h d f (k # rest) = register_events (register_one h d f k) d f rest"
  by (simp add: register_one_def split: prod.splits)

lemma register_events_effect:
  assumes "owns h d"
  shows "owns (register_events h d f ns) d
         \<and> callbacks_at (register_events h d f ns) d k
             = callbacks_at h d k @ map (\<lambda>_. f) (filter (\<lambda>n. n = k) ns)
         \<and> take d (register_events h d f ns) = take d h
         \<and> length h \<le> length (register_events h d f ns)"
  using assms
proof (induction ns arbitrary: h)
  case Nil
  then show ?case by simp
next
  case (Cons n ns)
  let ?h = "register_one h d f n"
  have o: "owns ?h d" using Cons.prems by (rule owns_register_one)
  have fr: "take d ?h = take d h" "length h \<le> length ?h"
    using frame_register_one [OF Cons.prems] by auto
  have cb: "callbacks_at ?h d k = (if k = n then callbacks_at h d n @ [f] else callbacks_at h d k)"
    using callbacks_at_register_one [OF Cons.prems] by simp
  from Cons.IH [OF o] fr cb show ?case
    unfolding register_events_step by auto
qed

lemma scan_values_effect:
  assumes "owns h d"
  shows "owns (scan_values h d vs) d
         \<and> callbacks_at (scan_values h d vs) d k = callbacks_at h d k @ declared_for vs k
         \<and> take d (scan_values h d vs) = take d h
         \<and> length h \<le> length (scan_values h d vs)"
  using assms
proof (induction h d vs rule: scan_values.induct)
  case (1 h d)
  then show ?case by (simp add: declared_for_def)
next
  case (2 h d vs)
  then show ?case by (simp add: declared_for_def tagged_def)
next
  case (3 h d f vs)
  show ?case
  proof (cases "events f")
    case None
    then show ?thesis using 3 by (simp add: declared_for_def tagged_def)
  next
    case (Some ns)
    note re = register_events_effect [OF "3.prems", of f ns k]
    from re have o: "owns (register_events h d f ns) d" by simp
    from "3.IH"(2) [OF Some o] re Some show ?thesis
      by (simp add: declared_for_def tagged_def)
  qed
qed

lemma owns_fresh: "owns (h @ [DefaultDict []]) (length h)"
  by (simp add: owns_def dict_entries_def)

lemma callbacks_at_fresh: "callbacks_at (h @ [DefaultDict []]) (length h) k = []"
  by (simp add: callbacks_at_def dict_entries_def)

lemma callbacks_for_at: "callbacks_for h c k = callbacks_at h (event_callbacks c) k"
  by (simp add: callbacks_for_def callbacks_at_def)

lemma SkillMeta_init_effect:
  "callbacks_for (snd (SkillMeta_init h name bases attrs)) (fst (SkillMeta_init h name bases attrs)) k
     = declared_for (map snd attrs) k"
  using scan_values_effect [OF owns_fresh, of h "map snd attrs" k]
  by (simp add: SkillMeta_init_def Let_def callbacks_for_at callbacks_at_fresh)

lemma SkillMeta_init_frame:
  "take (length h) (snd (SkillMeta_init h name bases attrs)) = h"
  using scan_values_effect [OF owns_fresh, of h "map snd attrs" "[]"]
  by (simp add: SkillMeta_init_def Let_def)

lemma SkillMeta_init_owns:
  "owns (snd (SkillMeta_init h name bases attrs)) (length h)
   \<and> event_callbacks (fst (SkillMeta_init h name bases attrs)) = length h
   \<and> length h < length (snd (SkillMeta_init h name bases attrs))"
  using scan_values_effect [OF owns_fresh, of h "map snd attrs" "[]"]
  by (simp add: SkillMeta_init_def Let_def)

lemma owned_bounds:
  assumes "owns h (event_callbacks c)"
  shows "owned h c \<subseteq> {event_callbacks c ..< length h}"
  using assms by (auto simp: owned_def owns_def)

lemma registry_frame:
  assumes "\<forall>a \<in> owned h c. a < length h \<and> a < length h' \<and> h' ! a = h ! a"
  shows "dict_entries h' (event_callbacks c) = dict_entries h (event_callbacks c)
         \<and> registry h' c = registry h c \<and> owned h' c = owned h c"
proof -
  have "event_callbacks c \<in> owned h c" by (simp add: owned_def)
  with assms have "event_callbacks c < length h \<and> event_callbacks c < length h'
      \<and> h' ! event_callbacks c = h ! event_callbacks c"
    by blast
  then have d: "dict_entries h' (event_callbacks c) = dict_entries h (event_callbacks c)"
    by (simp add: dict_entries_def)
  have "list_items h' l = list_items h l" if "(k, l) \<in> set (dict_entries h (event_callbacks c))" for k l
  proof -
    have "l \<in> owned h c" using that by (force simp: owned_def)
    with assms have "l < length h \<and> l < length h' \<and> h' ! l = h ! l" by blast
    then show ?thesis by (simp add: list_items_def)
  qed
  then have "registry h' c = registry h c"
    unfolding registry_def d by (intro map_cong refl) auto
  then show ?thesis using d by (simp add: owned_def)
qed

section \<open>Properties of dispatch\<close>

lemma execute_callbacks_alt:
  "execute_callbacks bodies h k a st =
     (case run_callbacks bodies (callbacks_for h (skill_cls (inst st)) k) a st of
        (r, st') \<Rightarrow> (r, st', h))"
  by (auto simp: execute_callbacks_def callbacks_for_def Let_def dict_contains_def
        defaultdict_getitem_def split: option.splits prod.splits)

lemma run_callbacks_returns:
  "run_bodies bodies fs a (inst st) (world st) = Some (s', w') \<Longrightarrow>
     run_callbacks bodies fs a st
       = (None, \<lparr>inst = s', world = w', calls = calls st @ map (\<lambda>f. (f, a)) fs\<rparr>)"
proof (induction fs arbitrary: st)
  case Nil
  then show ?case by (cases st) simp
next
  case (Cons f fs)
  obtain r s1 w1 where b: "bodies (func_id f) (inst st) a (world st) = (r, s1, w1)"
    by (cases "bodies (func_id f) (inst st) a (world st)")
  with Cons.prems have r: "r = None" by (cases r) simp_all
  let ?st = "\<lparr>inst = s1, world = w1, calls = calls st @ [(f, a)]\<rparr>"
  have "run_bodies bodies fs a (inst ?st) (world ?st) = Some (s', w')"
    using Cons.prems b r by simp
  from Cons.IH [OF this] show ?case using b r by (simp add: call_def)
qed

lemma run_callbacks_raises:
  assumes "run_bodies bodies pre a (inst st) (world st) = Some (s1, w1)"
    and "bodies (func_id f) s1 a w1 = (Some e, s2, w2)"
  shows "run_callbacks bodies (pre @ f # post) a st
       = (Some e, \<lparr>inst = s2, world = w2, calls = calls st @ map (\<lambda>g. (g, a)) (pre @ [f])\<rparr>)"
  using assms
proof (induction pre arbitrary: st)
  case Nil
  then show ?case by (simp add: call_def)
next
  case (Cons g pre)
  obtain r s' w' where b: "bodies (func_id g) (inst st) a (world st) = (r, s', w')"
    by (cases "bodies (func_id g) (inst st) a (world st)")
  with Cons.prems have r: "r = None" by (cases r) simp_all
  let ?st = "\<lparr>inst = s', world = w', calls = calls st @ [(g, a)]\<rparr>"
  have "run_bodies bodies pre a (inst ?st) (world ?st) = Some (s1, w1)"
    using Cons.prems b r by simp
  from Cons.IH [OF this Cons.prems(2)] show ?case using b r by (simp add: call_def)
qed

text \<open>
  C4: dispatching an event name under which the class's mapping holds no callback (the
  key is missing, or bound to an empty list) returns normally, calls nothing and leaves
  the instance, the world and the store as they were.
\<close>

theorem unknown_event_is_noop:
  assumes "callbacks_for h (skill_cls (inst st)) event_name = []"
  shows "execute_callbacks bodies h event_name event_args st = (None, st, h)"
  using assms by (simp add: execute_callbacks_alt)

lemma cls_at_spawn: "skill_cls (inst (at_spawn c)) = c"
  by (simp add: at_spawn_def Skill_init_def)

theorem unknown_event_is_noop_witness:
  "callbacks_for heap_N Bonus_Health ''player_death'' = []
   \<and> execute_callbacks scenario_bodies heap_N ''player_death'' ''P'' (at_spawn Bonus_Health)
       = (None, at_spawn Bonus_Health, heap_N)"
proof -
  have h: "callbacks_for heap_N Bonus_Health ''player_death'' = []" by code_simp
  show ?thesis
    using h unknown_event_is_noop [of heap_N "at_spawn Bonus_Health" "''player_death''"
        scenario_bodies "''P''"]
    by (simp add: cls_at_spawn)
qed

text \<open>
  C5: when the callbacks before the k-th return normally and the k-th raises, the
  dispatch ends with that same exception, and the calls made are those up to the k-th
  and no later one.
\<close>

theorem callback_error_propagates:
  assumes "callbacks_for h (skill_cls (inst st)) event_name = pre @ f # post"
    and "run_bodies bodies pre event_args (inst st) (world st) = Some (s1, w1)"
    and "bodies (func_id f) s1 event_args w1 = (Some e, s2, w2)"
  shows "execute_callbacks bodies h event_name event_args st
       = (Some e,
          \<lparr>inst = s2, world = w2,
           calls = calls st @ map (\<lambda>g. (g, event_args)) (pre @ [f])\<rparr>,
          h)"
  using run_callbacks_raises [OF assms(2,3)] assms(1) by (simp add: execute_callbacks_alt)

lemma Fragile_callbacks:
  "callbacks_for heap_F Fragile ''player_spawn'' = [give_health, failing, give_more]"
  by code_simp

theorem callback_error_propagates_witness:
  "callbacks_for heap_F Fragile ''player_spawn'' = [give_health] @ failing # [give_more]
   \<and> run_bodies scenario_bodies [give_health] ''P'' (Skill_init Fragile (Some 2)) 100
       = Some (Skill_init Fragile (Some 2), 150)
   \<and> scenario_bodies (func_id failing) (Skill_init Fragile (Some 2)) ''P'' 150
       = (Some (CallbackError ''boom''), Skill_init Fragile (Some 2), 150)
   \<and> execute_callbacks scenario_bodies heap_F ''player_spawn'' ''P'' (at_spawn Fragile)
       = (Some (CallbackError ''boom''),
          \<lparr>inst = Skill_init Fragile (Some 2), world = 150,
           calls = [(give_health, ''P''), (failing, ''P'')]\<rparr>,
          heap_F)"
proof -
  have a: "callbacks_for heap_F Fragile ''player_spawn'' = [give_health] @ failing # [give_more]"
    using Fragile_callbacks by simp
  have b: "run_bodies scenario_bodies [give_health] ''P'' (Skill_init Fragile (Some 2)) 100
       = Some (Skill_init Fragile (Some 2), 150)"
    by (simp add: scenario_bodies_def give_health_def Skill_init_def)
  have c: "scenario_bodies (func_id failing) (Skill_init Fragile (Some 2)) ''P'' 150
       = (Some (CallbackError ''boom''), Skill_init Fragile (Some 2), 150)"
    by (simp add: scenario_bodies_def failing_def)
  have i: "inst (at_spawn Fragile) = Skill_init Fragile (Some 2)" "world (at_spawn Fragile) = 100"
    "calls (at_spawn Fragile) = []"
    by (simp_all add: at_spawn_def)
  have a': "callbacks_for heap_F (skill_cls (inst (at_spawn Fragile))) ''player_spawn''
      = [give_health] @ failing # [give_more]"
    using a by (simp add: cls_at_spawn)
  have b': "run_bodies scenario_bodies [give_health] ''P'' (inst (at_spawn Fragile))
      (world (at_spawn Fragile)) = Some (Skill_init Fragile (Some 2), 150)"
    using b by (simp only: i)
  have r: "execute_callbacks scenario_bodies heap_F ''player_spawn'' ''P'' (at_spawn Fragile)
       = (Some (CallbackError ''boom''),
          \<lparr>inst = Skill_init Fragile (Some 2), world = 150,
           calls = [(give_health, ''P''), (failing, ''P'')]\<rparr>,
          heap_F)"
    using callback_error_propagates [OF a' b' c] by (simp add: i)
  show ?thesis using a b c r by blast
qed

lemma skill_cls_init: "skill_cls (Skill_init c l) = c"
  by (simp add: Skill_init_def)





text \<open>
  C1, as the code has it: whatever the bases, the mapping of a class holds under each
  event name exactly the callbacks that the class's own body declares for it, in the
  order of the body. A base's callbacks are in it only where the body binds them again.
\<close>

theorem registry_is_own_body:
  "callbacks_for (snd (SkillMeta_init h name bases attrs))
       (fst (SkillMeta_init h name bases attrs)) k
     = declared_for (map snd attrs) k
   \<and> cls_bases (fst (SkillMeta_init h name bases attrs)) = bases"
  using SkillMeta_init_effect [of h name bases attrs k] by (simp add: SkillMeta_init_def Let_def)

lemma heap_N_callbacks:
  "callbacks_for heap_N Bonus_Health ''player_spawn'' = [give_health]"
  "callbacks_for heap_N Plain_Bonus ''player_spawn'' = []"
  "callbacks_for heap_N Bonus_Health_Plus ''player_spawn'' = [give_more]"
  by code_simp+

lemma scenario_bases:
  "cls_bases Plain_Bonus = [Bonus_Health]" "cls_bases Bonus_Health_Plus = [Bonus_Health]"
  by (simp_all add: Plain_Bonus_def Bonus_Health_Plus_def SkillMeta_init_def Let_def)

text \<open>
  C1 as stated fails: \<open>Plain_Bonus\<close> and \<open>Bonus_Health_Plus\<close> have the base
  \<open>Bonus_Health\<close>, whose mapping holds \<open>give_health\<close> under \<^verbatim>\<open>player_spawn\<close>. The
  mapping of \<open>Plain_Bonus\<close>, which overrides nothing, holds no callback for that event,
  and a dispatch on an instance of \<open>Bonus_Health_Plus\<close> calls \<open>give_more\<close> alone.
\<close>

theorem subclass_inherits_counterexample:
  "cls_bases Plain_Bonus = [Bonus_Health]
   \<and> cls_bases Bonus_Health_Plus = [Bonus_Health]
   \<and> callbacks_for heap_N Bonus_Health ''player_spawn'' = [give_health]
   \<and> map_of Plain_Bonus_attrs ''_give_health'' = None
   \<and> callbacks_for heap_N Plain_Bonus ''player_spawn'' = []
   \<and> callbacks_for heap_N Bonus_Health_Plus ''player_spawn'' = [give_more]
   \<and> execute_callbacks scenario_bodies heap_N ''player_spawn'' ''P'' (at_spawn Bonus_Health_Plus)
       = (None,
          \<lparr>inst = Skill_init Bonus_Health_Plus (Some 2), world = 101,
           calls = [(give_more, ''P'')]\<rparr>,
          heap_N)"
proof -
  have i: "inst (at_spawn Bonus_Health_Plus) = Skill_init Bonus_Health_Plus (Some 2)"
    "world (at_spawn Bonus_Health_Plus) = 100" "calls (at_spawn Bonus_Health_Plus) = []"
    by (simp_all add: at_spawn_def)
  have b: "run_bodies scenario_bodies [give_more] ''P'' (inst (at_spawn Bonus_Health_Plus))
      (world (at_spawn Bonus_Health_Plus)) = Some (Skill_init Bonus_Health_Plus (Some 2), 101)"
    by (simp add: i scenario_bodies_def give_more_def)
  have r: "execute_callbacks scenario_bodies heap_N ''player_spawn'' ''P'' (at_spawn Bonus_Health_Plus)
       = (None,
          \<lparr>inst = Skill_init Bonus_Health_Plus (Some 2), world = 101,
           calls = [(give_more, ''P'')]\<rparr>,
          heap_N)"
    using run_callbacks_returns [OF b]
    by (simp add: execute_callbacks_alt skill_cls_init heap_N_callbacks i)
  have m: "map_of Plain_Bonus_attrs ''_give_health'' = None"
    by (simp add: Plain_Bonus_attrs_def)
  show ?thesis using scenario_bases heap_N_callbacks r m by blast
qed

lemma tagged_member: "g \<in> set (tagged v k) \<Longrightarrow> \<exists>ns. events g = Some ns \<and> k \<in> set ns"
  by (cases v; cases "events g") (auto simp: tagged_def split: option.splits)

lemma declared_member: "g \<in> set (declared_for vs k) \<Longrightarrow> \<exists>ns. events g = Some ns \<and> k \<in> set ns"
  by (auto simp: declared_for_def dest: tagged_member)

text \<open>
  C6 as stated fails: with no event name the decorator returns the function, tagged with
  the empty tuple; nothing is rejected.
\<close>

theorem zero_names_counterexample:
  "event_callback [] \<lparr>func_id = 7, events = None\<rparr> = Inr \<lparr>func_id = 7, events = Some []\<rparr>"
  by (simp add: event_callback_def)

text \<open>
  C6, as the code has it: a declaration with no event name is accepted; the scan of a
  class body passes over the function, which is in no list of any class's mapping, so no
  dispatch ever calls it and nothing fails later.
\<close>

theorem zero_names_registers_nothing:
  "event_callback [] f = Inr (f\<lparr>events := Some []\<rparr>)
   \<and> scan_values h d (Function (f\<lparr>events := Some []\<rparr>) # vs) = scan_values h d vs
   \<and> f\<lparr>events := Some []\<rparr>
       \<notin> set (callbacks_for (snd (SkillMeta_init h' name bases attrs))
               (fst (SkillMeta_init h' name bases attrs)) k)"
proof -
  have "f\<lparr>events := Some []\<rparr> \<notin> set (declared_for (map snd attrs) k)"
    using declared_member [of "f\<lparr>events := Some []\<rparr>" "map snd attrs" k] by auto
  then show ?thesis
    by (simp add: event_callback_def SkillMeta_init_effect)
qed

section \<open>Dispatch and the store\<close>

lemma iterate_reads_only:
  assumes ro: "reads_only bodies"
  shows "i \<le> length (list_items h l) \<Longrightarrow>
         iterate_callbacks bodies l i a st h
           = (case run_callbacks (frozen bodies h) (drop i (list_items h l)) a st of
                (r, st') \<Rightarrow> Some (r, st', h))"
proof (induction "length (list_items h l) - i" arbitrary: i st)
  case 0
  then show ?case
    by (subst iterate_callbacks.simps) simp
next
  case (Suc n)
  then have lt: "i < length (list_items h l)" by simp
  let ?f = "list_items h l ! i"
  obtain r s' w' h' where b: "bodies (func_id ?f) (inst st) a (world st) h = (r, s', w', h')"
    by (cases "bodies (func_id ?f) (inst st) a (world st) h") auto
  have h': "h' = h" using ro b unfolding reads_only_def by (metis snd_conv)
  have dr: "drop i (list_items h l) = ?f # drop (Suc i) (list_items h l)"
    using lt by (simp add: Cons_nth_drop_Suc)
  let ?st = "\<lparr>inst = s', world = w', calls = calls st @ [(?f, a)]\<rparr>"
  have IH: "iterate_callbacks bodies l (Suc i) a ?st h
      = (case run_callbacks (frozen bodies h) (drop (Suc i) (list_items h l)) a ?st of
                (r, st') \<Rightarrow> Some (r, st', h))"
    using Suc.hyps(1) [of "Suc i" ?st] Suc.hyps(2) lt by simp
  show ?case
  proof (cases r)
    case None
    show ?thesis
      apply (subst iterate_callbacks.simps)
      using lt b h' None IH
      by (simp add: call_live_def dr call_def frozen_def)
  next
    case (Some e)
    show ?thesis
      apply (subst iterate_callbacks.simps)
      using lt b h' Some
      by (simp add: call_live_def dr call_def frozen_def)
  qed
qed

lemma execute_callbacks_live_reads_only:
  assumes "reads_only bodies"
  shows "execute_callbacks_live bodies h k a st = Some (execute_callbacks (frozen bodies h) h k a st)"
proof (cases "dict_contains h (event_callbacks (skill_cls (inst st))) k")
  case False
  then show ?thesis by (simp add: execute_callbacks_live_def execute_callbacks_def)
next
  case True
  then obtain l where l: "map_of (dict_entries h (event_callbacks (skill_cls (inst st)))) k = Some l"
    by (auto simp: dict_contains_def)
  then have g: "defaultdict_getitem h (event_callbacks (skill_cls (inst st))) k = (l, h)"
    by (simp add: defaultdict_getitem_def)
  show ?thesis
    using True g iterate_reads_only [OF assms, of 0 h l a st]
    by (simp add: execute_callbacks_live_def execute_callbacks_def split: prod.splits)
qed

lemma reads_only_lifted: "reads_only (lifted bodies)"
  by (simp add: reads_only_def lifted_def split: prod.splits)

lemma frozen_lifted: "frozen (lifted bodies) h = bodies"
  by (rule ext)+ (simp add: frozen_def lifted_def split: prod.splits)

lemma execute_callbacks_lifted:
  "execute_callbacks_live (lifted bodies) h k a st = Some (execute_callbacks bodies h k a st)"
  using execute_callbacks_live_reads_only [OF reads_only_lifted, of bodies h k a st]
  by (simp add: frozen_lifted)

lemma execute_callbacks_live_none:
  assumes "callbacks_for h (skill_cls (inst st)) k = []"
  shows "execute_callbacks_live bodies h k a st = Some (None, st, h)"
proof (cases "map_of (dict_entries h (event_callbacks (skill_cls (inst st)))) k")
  case None
  then show ?thesis by (simp add: execute_callbacks_live_def dict_contains_def)
next
  case (Some l)
  then have "list_items h l = []" using assms by (simp add: callbacks_for_def)
  then show ?thesis
    using Some
    by (simp add: execute_callbacks_live_def dict_contains_def defaultdict_getitem_def
          iterate_callbacks.simps)
qed

text \<open>
  C8, as the code has it: the lines of the dispatcher write to no mapping and scan
  nothing. When the callbacks leave the store as they find it, a dispatch returns and the
  store, hence every class's mapping, is as it was before; when no callback is
  registered under the event name, that is so whatever the callbacks would do.
\<close>

theorem dispatch_itself_never_writes:
  "(reads_only bodies \<longrightarrow>
      map_option (\<lambda>(r, st', h'). h') (execute_callbacks_live bodies h event_name event_args st)
        = Some h)
   \<and> (callbacks_for h (skill_cls (inst st)) event_name = [] \<longrightarrow>
        execute_callbacks_live bodies h event_name event_args st = Some (None, st, h))"
proof (intro conjI impI)
  assume ro: "reads_only bodies"
  have "snd (snd (execute_callbacks (frozen bodies h) h event_name event_args st)) = h"
    by (simp add: execute_callbacks_alt split: prod.splits)
  then show "map_option (\<lambda>(r, st', h'). h')
      (execute_callbacks_live bodies h event_name event_args st) = Some h"
    unfolding execute_callbacks_live_reads_only [OF ro]
    by (cases "execute_callbacks (frozen bodies h) h event_name event_args st") simp
next
  assume "callbacks_for h (skill_cls (inst st)) event_name = []"
  then show "execute_callbacks_live bodies h event_name event_args st = Some (None, st, h)"
    by (rule execute_callbacks_live_none)
qed

theorem dispatch_itself_never_writes_witness:
  "reads_only (lifted scenario_bodies)
   \<and> map_option (\<lambda>(r, st', h'). h')
        (execute_callbacks_live (lifted scenario_bodies) heap_D ''player_spawn'' ''P''
           (at_spawn Double_Bonus))
       = Some heap_D
   \<and> callbacks_for heap_D (skill_cls (inst (at_spawn Double_Bonus))) ''player_death'' = []
   \<and> execute_callbacks_live peeking heap_D ''player_death'' ''P'' (at_spawn Double_Bonus)
       = Some (None, at_spawn Double_Bonus, heap_D)"
proof -
  have c: "callbacks_for heap_D (skill_cls (inst (at_spawn Double_Bonus))) ''player_death'' = []"
    unfolding cls_at_spawn by code_simp
  note t1 = dispatch_itself_never_writes [where bodies = "lifted scenario_bodies"
      and h = heap_D and event_name = "''player_spawn''" and event_args = "''P''"
      and st = "at_spawn Double_Bonus", THEN conjunct1, rule_format, OF reads_only_lifted]
  note t2 = dispatch_itself_never_writes [where bodies = peeking
      and h = heap_D and event_name = "''player_death''" and event_args = "''P''"
      and st = "at_spawn Double_Bonus", THEN conjunct2, rule_format, OF c]
  show ?thesis using reads_only_lifted [of scenario_bodies] c t1 t2 by blast
qed

lemma registry_before_peek: "registry heap_N Bonus_Health = [(''player_spawn'', [give_health])]"
  by code_simp

lemma registry_after_peek:
  "registry heap_peeked Bonus_Health = [(''player_spawn'', [give_health]), (''player_death'', [])]"
  by code_simp

lemma peek_run:
  "execute_callbacks_live peeking heap_N ''player_spawn'' ''P'' (at_spawn Bonus_Health)
     = Some (None,
             \<lparr>inst = Skill_init Bonus_Health (Some 2), world = 100,
              calls = [(give_health, ''P'')]\<rparr>,
             heap_peeked)"
proof -
  have d: "event_callbacks Bonus_Health = 2" by code_simp
  have c: "dict_contains heap_N 2 ''player_spawn''" by code_simp
  have g: "defaultdict_getitem heap_N 2 ''player_spawn'' = (3, heap_N)" by code_simp
  have l0: "list_items heap_N 3 = [give_health]" by code_simp
  have p: "defaultdict_getitem heap_N 2 ''player_death'' = (7, heap_peeked)" by code_simp
  have l1: "list_items heap_peeked 3 = [give_health]" by code_simp
  have i: "inst (at_spawn Bonus_Health) = Skill_init Bonus_Health (Some 2)"
    "world (at_spawn Bonus_Health) = 100" "calls (at_spawn Bonus_Health) = []"
    by (simp_all add: at_spawn_def)
  let ?st = "\<lparr>inst = Skill_init Bonus_Health (Some 2), world = 100,
              calls = [(give_health, ''P'')]\<rparr> :: (string, int) run_state"
  have c1: "call_live peeking give_health ''P'' (at_spawn Bonus_Health) heap_N
      = (None, ?st, heap_peeked)"
    by (simp add: call_live_def peeking_def i skill_cls_init d p)
  have last: "iterate_callbacks peeking 3 (Suc 0) ''P'' ?st heap_peeked = Some (None, ?st, heap_peeked)"
    by (subst iterate_callbacks.simps) (simp add: l1)
  have "iterate_callbacks peeking 3 0 ''P'' (at_spawn Bonus_Health) heap_N
      = Some (None, ?st, heap_peeked)"
    by (subst iterate_callbacks.simps) (simp add: l0 c1 last)
  then show ?thesis
    by (simp add: execute_callbacks_live_def i skill_cls_init d c g)
qed

text \<open>
  C8 as stated fails: the mapping is a \<^verbatim>\<open>defaultdict\<close> that any callback reaches through
  \<^verbatim>\<open>self\<close>, and it is not frozen. \<open>Bonus_Health\<close> registers one callback under
  \<^verbatim>\<open>player_spawn\<close>; when its body reads \<^verbatim>\<open>self._event_callbacks['player_death']\<close>, the
  mapping of \<open>Bonus_Health\<close> has one key before the dispatch and two after it.
\<close>

theorem mapping_immutable_counterexample:
  "registry heap_N Bonus_Health = [(''player_spawn'', [give_health])]
   \<and> execute_callbacks_live peeking heap_N ''player_spawn'' ''P'' (at_spawn Bonus_Health)
       = Some (None,
               \<lparr>inst = Skill_init Bonus_Health (Some 2), world = 100,
                calls = [(give_health, ''P'')]\<rparr>,
               heap_peeked)
   \<and> registry heap_peeked Bonus_Health
       = [(''player_spawn'', [give_health]), (''player_death'', [])]"
  using registry_before_peek registry_after_peek peek_run by blast

section \<open>Independence of the mappings\<close>

lemma registry_update_frame:
  assumes "a \<notin> owned h c" and "owned h c \<subseteq> {..< length h}"
  shows "registry (h[a := x]) c = registry h c"
proof -
  have "b < length h \<and> b < length (h[a := x]) \<and> h[a := x] ! b = h ! b" if "b \<in> owned h c" for b
  proof -
    have "b \<noteq> a" using that assms(1) by auto
    moreover have "b < length h" using that assms(2) by auto
    ultimately show ?thesis by simp
  qed
  then have "\<forall>b \<in> owned h c. b < length h \<and> b < length (h[a := x]) \<and> h[a := x] ! b = h ! b"
    by blast
  from registry_frame [OF this] show ?thesis by simp
qed

lemma register_one_other:
  assumes "owns h d" and "a < length h" and "a \<noteq> d" and "a \<notin> snd ` set (dict_entries h d)"
  shows "register_one h d f k ! a = h ! a"
proof (cases "map_of (dict_entries h d) k")
  case None
  show ?thesis
    unfolding register_one_missing [OF assms(1) None]
    using assms(2,3) by (simp add: nth_append)
next
  case (Some l)
  then have "l \<in> snd ` set (dict_entries h d)" by (force dest: map_of_SomeD)
  then have "a \<noteq> l" using assms(4) by auto
  then show ?thesis
    unfolding register_one_present [OF assms(1) Some] by simp
qed

lemma owns_frame:
  assumes "owns h (event_callbacks c)"
    and "\<forall>a \<in> owned h c. h' ! a = h ! a" and "length h \<le> length h'"
  shows "owns h' (event_callbacks c)"
proof -
  have lt: "a < length h" if "a \<in> owned h c" for a
    using owned_bounds [OF assms(1)] that by auto
  have "\<forall>a \<in> owned h c. a < length h \<and> a < length h' \<and> h' ! a = h ! a"
    using assms(2,3) lt by fastforce
  from registry_frame [OF this]
  have d: "dict_entries h' (event_callbacks c) = dict_entries h (event_callbacks c)" by simp
  have li: "list_items h' l = list_items h l \<and> h' ! l = h ! l \<and> l < length h'"
    if "l \<in> snd ` set (dict_entries h (event_callbacks c))" for l
  proof -
    have o: "l \<in> owned h c" using that by (simp add: owned_def)
    have e: "h' ! l = h ! l" using o assms(2) by blast
    have l1: "l < length h" using lt [OF o] .
    have l2: "l < length h'" using l1 assms(3) by simp
    show ?thesis using e l1 l2 by (simp add: list_items_def)
  qed
  have dd: "h' ! event_callbacks c = h ! event_callbacks c"
    using assms(2) by (simp add: owned_def)
  show ?thesis
    using assms(1,3) li unfolding owns_def d dd by (auto simp: less_le_trans)
qed

lemma register_one_leaves_other:
  assumes "owns h (event_callbacks c)" and "owned h c \<inter> owned h c' = {}"
    and "owned h c' \<subseteq> {..< length h}"
  shows "registry (register_one h (event_callbacks c) f k) c' = registry h c'"
proof -
  let ?h = "register_one h (event_callbacks c) f k"
  have len: "length h \<le> length ?h" using frame_register_one [OF assms(1)] by simp
  have "a < length h \<and> a < length ?h \<and> ?h ! a = h ! a" if "a \<in> owned h c'" for a
  proof -
    have a: "a < length h" using that assms(3) by auto
    have "a \<notin> owned h c" using that assms(2) by auto
    then have "a \<noteq> event_callbacks c" "a \<notin> snd ` set (dict_entries h (event_callbacks c))"
      by (simp_all add: owned_def)
    from register_one_other [OF assms(1) a this] a len show ?thesis by simp
  qed
  then have "\<forall>a \<in> owned h c'. a < length h \<and> a < length ?h \<and> ?h ! a = h ! a" by blast
  from registry_frame [OF this] show ?thesis by simp
qed

text \<open>
  C9: a class \<open>B\<close> is constructed, the store grows by whatever is allocated next, and a
  class \<open>C\<close> is constructed (with \<open>B\<close> among its bases or not, with the same names in
  its body or not). The two mappings are different dictionaries and share no list; the
  objects of \<open>C\<close>'s mapping did not exist before; \<open>B\<close>'s mapping reads as it did before
  \<open>C\<close> was constructed; and overwriting any object of one mapping, or registering one
  more callback in one mapping, leaves the other mapping as it was.
\<close>

theorem mappings_not_aliased:
  assumes B: "SkillMeta_init h0 nB bB aB = (B, h1)"
    and C: "SkillMeta_init (h1 @ ext) nC bC aC = (C, h3)"
  shows "event_callbacks B \<noteq> event_callbacks C
       \<and> owned h3 B \<inter> owned h3 C = {}
       \<and> owned h3 C \<inter> {..< length (h1 @ ext)} = {}
       \<and> registry h3 B = registry h1 B
       \<and> (\<forall>a \<in> owned h3 C. \<forall>x. registry (h3[a := x]) B = registry h3 B)
       \<and> (\<forall>a \<in> owned h3 B. \<forall>x. registry (h3[a := x]) C = registry h3 C)
       \<and> (\<forall>f k. registry (register_one h3 (event_callbacks C) f k) B = registry h3 B)
       \<and> (\<forall>f k. registry (register_one h3 (event_callbacks B) f k) C = registry h3 C)"
proof -
  have oB: "owns h1 (event_callbacks B)" and dB: "event_callbacks B = length h0"
    and lB: "length h0 < length h1"
    using SkillMeta_init_owns [of h0 nB bB aB] B by simp_all
  have bB: "owned h1 B \<subseteq> {event_callbacks B ..< length h1}"
    by (rule owned_bounds [OF oB])
  have oC: "owns h3 (event_callbacks C)" and dC: "event_callbacks C = length (h1 @ ext)"
    and lC: "length (h1 @ ext) < length h3"
    using SkillMeta_init_owns [of "h1 @ ext" nC bC aC] C by simp_all
  have bC: "owned h3 C \<subseteq> {event_callbacks C ..< length h3}"
    by (rule owned_bounds [OF oC])
  have tk: "take (length (h1 @ ext)) h3 = h1 @ ext"
    using SkillMeta_init_frame [of "h1 @ ext" nC bC aC] C by simp
  have old: "h3 ! a = h1 ! a" if "a < length h1" for a
  proof -
    have "h3 ! a = take (length (h1 @ ext)) h3 ! a" using that by simp
    also have "\<dots> = h1 ! a" unfolding tk using that by (simp add: nth_append)
    finally show ?thesis .
  qed
  have same: "\<forall>a \<in> owned h1 B. a < length h1 \<and> a < length h3 \<and> h3 ! a = h1 ! a"
    using bB lC old by auto
  then have "\<forall>a \<in> owned h1 B. h3 ! a = h1 ! a" by blast
  moreover have "length h1 \<le> length h3" using lC by simp
  ultimately have oB3: "owns h3 (event_callbacks B)" by (rule owns_frame [OF oB])
  from registry_frame [OF same]
  have rB: "registry h3 B = registry h1 B" and wB: "owned h3 B = owned h1 B" by simp_all
  have B3: "owned h3 B \<subseteq> {..< length h1}" using bB wB by auto
  have C3: "owned h3 C \<subseteq> {length h1 ..< length h3}" using bC dC by auto
  have lt: "a < length h1" if "a \<in> owned h3 B" for a using B3 that by auto
  have ge: "length h1 \<le> a" if "a \<in> owned h3 C" for a using C3 that by auto
  have disj: "owned h3 B \<inter> owned h3 C = {}" using lt ge by fastforce
  have inB: "owned h3 B \<subseteq> {..< length h3}" using B3 lC by auto
  have inC: "owned h3 C \<subseteq> {..< length h3}" using C3 by auto
  have ne: "event_callbacks B \<noteq> event_callbacks C" using dB dC lB by simp
  have fresh: "owned h3 C \<inter> {..< length (h1 @ ext)} = {}" using bC dC by fastforce
  have m1: "\<forall>a \<in> owned h3 C. \<forall>x. registry (h3[a := x]) B = registry h3 B"
    using disj registry_update_frame [OF _ inB] by blast
  have m2: "\<forall>a \<in> owned h3 B. \<forall>x. registry (h3[a := x]) C = registry h3 C"
    using disj registry_update_frame [OF _ inC] by blast
  have disj': "owned h3 C \<inter> owned h3 B = {}" using disj by blast
  have m3: "\<forall>f k. registry (register_one h3 (event_callbacks C) f k) B = registry h3 B"
    using register_one_leaves_other [OF oC disj' inB] by blast
  have m4: "\<forall>f k. registry (register_one h3 (event_callbacks B) f k) C = registry h3 C"
    using register_one_leaves_other [OF oB3 disj inC] by blast
  show ?thesis using ne disj fresh rB m1 m2 m3 m4 by blast
qed

theorem mappings_not_aliased_witness:
  "SkillMeta_init module_heap ''Bonus_Health'' [Skill_class] Bonus_Health_attrs
     = (Bonus_Health, heap_B)
   \<and> SkillMeta_init (heap_B @ []) ''Bonus_Health_Plus'' [Bonus_Health] Bonus_Health_Plus_attrs
     = (Bonus_Health_Plus, heap_P)
   \<and> event_callbacks Bonus_Health \<noteq> event_callbacks Bonus_Health_Plus
   \<and> owned heap_P Bonus_Health \<inter> owned heap_P Bonus_Health_Plus = {}
   \<and> registry heap_P Bonus_Health = registry heap_B Bonus_Health
   \<and> 5 \<in> owned heap_P Bonus_Health_Plus
   \<and> registry (heap_P[5 := PyList []]) Bonus_Health = registry heap_P Bonus_Health
   \<and> 3 \<in> owned heap_P Bonus_Health
   \<and> registry (heap_P[3 := PyList []]) Bonus_Health_Plus = registry heap_P Bonus_Health_Plus
   \<and> registry (register_one heap_P (event_callbacks Bonus_Health_Plus) failing ''player_death'')
         Bonus_Health
       = registry heap_P Bonus_Health"
proof -
  have B: "SkillMeta_init module_heap ''Bonus_Health'' [Skill_class] Bonus_Health_attrs
     = (Bonus_Health, heap_B)"
    by (simp add: Bonus_Health_def heap_B_def)
  have C: "SkillMeta_init (heap_B @ []) ''Bonus_Health_Plus'' [Bonus_Health] Bonus_Health_Plus_attrs
     = (Bonus_Health_Plus, heap_P)"
    by (simp add: Bonus_Health_Plus_def heap_P_def)
  have o1: "5 \<in> owned heap_P Bonus_Health_Plus" by code_simp
  have o2: "3 \<in> owned heap_P Bonus_Health" by code_simp
  note t = mappings_not_aliased [OF B C]
  show ?thesis using B C o1 o2 t by blast
qed

section \<open>The unimplemented tick\<close>

lemma find_after_takeWhile:
  "x \<in> set ks \<Longrightarrow> list_all (\<lambda>k. \<not> P k) (takeWhile (\<lambda>k. k \<noteq> x) ks) \<Longrightarrow> P x
     \<Longrightarrow> find P ks = Some x"
proof (induction ks)
  case Nil
  then show ?case by simp
next
  case (Cons a ks)
  show ?case
  proof (cases "a = x")
    case True
    then show ?thesis using Cons.prems(3) by simp
  next
    case False
    then have na: "\<not> P a" and rest: "list_all (\<lambda>k. \<not> P k) (takeWhile (\<lambda>k. k \<noteq> x) ks)"
      using Cons.prems(2) by simp_all
    have "x \<in> set ks" using Cons.prems(1) False by simp
    from Cons.IH [OF this rest Cons.prems(3)] na show ?thesis by simp
  qed
qed

lemma inherited_tick:
  assumes "never_overrides_tick tick_c c" and "cls_attrs tick_c = TickRepeatSkill_attrs"
  shows "class_lookup c ''_tick'' = Some (Function tick_function)"
proof (cases "mro c")
  case None
  then show ?thesis using assms(1) by (simp add: never_overrides_tick_def)
next
  case (Some ks)
  have m: "tick_c \<in> set ks"
    and n: "list_all (\<lambda>k. \<not> binds ''_tick'' k) (takeWhile (\<lambda>k. k \<noteq> tick_c) ks)"
    using assms(1) Some by (simp_all add: never_overrides_tick_def)
  have v: "map_of (cls_attrs tick_c) ''_tick'' = Some (Function tick_function)"
    unfolding assms(2) by (simp add: TickRepeatSkill_attrs_def)
  have b: "binds ''_tick'' tick_c" using v by (simp add: binds_def)
  have "find (binds ''_tick'') ks = Some tick_c"
    by (rule find_after_takeWhile [where P = "binds ''_tick''" and x = tick_c, OF m n b])
  then show ?thesis
    using Some v by (simp add: class_lookup_def)
qed

lemma load_module_result:
  "load_module h =
     (SkillClass ''Skill'' [] Skill_attrs (length h),
      SkillClass ''TickRepeatSkill'' [SkillClass ''Skill'' [] Skill_attrs (length h)]
        TickRepeatSkill_attrs (Suc (length h)),
      h @ [DefaultDict [], DefaultDict []])"
  by (simp add: load_module_def SkillMeta_init_def Let_def Skill_attrs_def
        TickRepeatSkill_attrs_def tick_function_def)

lemma merge_empties: "merge [[]] = Some []" "merge [[], []] = Some []"
  by (simp_all add: merge.simps [of "[[]]"] merge.simps [of "[[], []]"])

lemma mro_no_bases: "mro (SkillClass n [] a d) = Some [SkillClass n [] a d]"
  by (simp add: merge_empties)

lemma mro_one_base:
  "mro (SkillClass n [SkillClass m [] a d] a' d')
     = Some [SkillClass n [SkillClass m [] a d] a' d', SkillClass m [] a d]"
proof -
  let ?s = "SkillClass m [] a d"
  have "merge [[?s], [?s]] = Some [?s]"
    by (subst merge.simps) (simp add: good_head_def merge_empties)
  then show ?thesis by (simp add: merge_empties)
qed

lemma module_classes:
  assumes "load_module h = (skill_c, tick_c, h')"
  shows "skill_c = SkillClass ''Skill'' [] Skill_attrs (length h)"
    and "tick_c = SkillClass ''TickRepeatSkill'' [skill_c] TickRepeatSkill_attrs (Suc (length h))"
    and "h' = h @ [DefaultDict [], DefaultDict []]"
  using assms by (auto simp: load_module_result)

lemma base_super_init:
  assumes "load_module h = (skill_c, tick_c, h')"
  shows "super_init inits skill_c tick_c tick_c lv w = (Inr (Skill_init tick_c (Some lv)), w)"
proof -
  note m = module_classes [OF assms]
  have mr: "mro tick_c = Some [tick_c, skill_c]"
    unfolding m(2) unfolding m(1) by (rule mro_one_base)
  have b: "binds ''__init__'' skill_c"
    unfolding m(1) by (simp add: binds_def Skill_attrs_def)
  show ?thesis
    using mr b by (simp add: super_init_def)
qed

lemma base_never_overrides:
  assumes "load_module h = (skill_c, tick_c, h')"
  shows "never_overrides_tick tick_c tick_c"
proof -
  note m = module_classes [OF assms]
  have mr: "mro tick_c = Some [tick_c, skill_c]"
    unfolding m(2) unfolding m(1) by (rule mro_one_base)
  show ?thesis using mr by (simp add: never_overrides_tick_def)
qed

lemma module_registries:
  assumes "load_module h = (skill_c, tick_c, h')"
  shows "registry h' skill_c = [] \<and> registry h' tick_c = []"
  using module_classes [OF assms]
  by (simp add: registry_def dict_entries_def nth_append)

text \<open>
  C7: let \<open>c\<close> be a class that never overrides \<^verbatim>\<open>_tick\<close>: \<^verbatim>\<open>TickRepeatSkill\<close> is in
  its resolution order and no class before it there binds the name.
  \<^verbatim>\<open>TickRepeatSkill.__init__\<close> on an instance of \<open>c\<close> raises only what
  \<^verbatim>\<open>super().__init__(level)\<close> raises, and otherwise hands the module's \<^verbatim>\<open>_tick\<close> to the
  scheduler; on \<^verbatim>\<open>TickRepeatSkill\<close> itself it always succeeds. Each trigger of that handle
  raises \<^verbatim>\<open>NotImplementedError\<close> and leaves the instance and the world as they were, so
  the next trigger raises again. Constructing the module's two classes raises nothing:
  it allocates their two mappings, both empty.
\<close>

theorem unimplemented_tick_raises_when_triggered:
  assumes "load_module h = (skill_c, tick_c, h')" and "never_overrides_tick tick_c c"
  shows "TickRepeatSkill_init inits skill_c tick_c c level_arg w
           = (case super_init inits skill_c tick_c c
                     (case level_arg of None \<Rightarrow> 0 | Some l \<Rightarrow> l) w of
                (Inl e, w') \<Rightarrow> (Inl e, w')
              | (Inr self, w') \<Rightarrow>
                  (Inr (self\<lparr>tick_repeat := Some (TickRepeat (Function tick_function))\<rparr>), w'))
       \<and> TickRepeatSkill_init inits skill_c tick_c tick_c level_arg w
           = (Inr ((Skill_init tick_c level_arg)
                     \<lparr>tick_repeat := Some (TickRepeat (Function tick_function))\<rparr>), w)
       \<and> trigger bodies (s\<lparr>tick_repeat := Some (TickRepeat (Function tick_function))\<rparr>) args v
           = (Some (NotImplementedError
                 ''_tick method not implemented by a TickRepeatSkill class.''),
              s\<lparr>tick_repeat := Some (TickRepeat (Function tick_function))\<rparr>, v)
       \<and> h' = h @ [DefaultDict [], DefaultDict []]
       \<and> registry h' skill_c = [] \<and> registry h' tick_c = []"
proof -
  note m = module_classes [OF assms(1)]
  have a: "cls_attrs tick_c = TickRepeatSkill_attrs" unfolding m(2) by simp
  have lk: "class_lookup c ''_tick'' = Some (Function tick_function)"
    by (rule inherited_tick [OF assms(2) a])
  have lkb: "class_lookup tick_c ''_tick'' = Some (Function tick_function)"
    by (rule inherited_tick [OF base_never_overrides [OF assms(1)] a])
  have c1: "TickRepeatSkill_init inits skill_c tick_c c level_arg w
           = (case super_init inits skill_c tick_c c
                     (case level_arg of None \<Rightarrow> 0 | Some l \<Rightarrow> l) w of
                (Inl e, w') \<Rightarrow> (Inl e, w')
              | (Inr self, w') \<Rightarrow>
                  (Inr (self\<lparr>tick_repeat := Some (TickRepeat (Function tick_function))\<rparr>), w'))"
    by (simp add: TickRepeatSkill_init_def lk split: prod.splits sum.splits)
  have si: "Skill_init tick_c (Some (case level_arg of None \<Rightarrow> 0 | Some l \<Rightarrow> l))
      = Skill_init tick_c level_arg"
    by (cases level_arg) (simp_all add: Skill_init_def)
  have c2: "TickRepeatSkill_init inits skill_c tick_c tick_c level_arg w
           = (Inr ((Skill_init tick_c level_arg)
                     \<lparr>tick_repeat := Some (TickRepeat (Function tick_function))\<rparr>), w)"
    by (simp add: TickRepeatSkill_init_def lkb base_super_init [OF assms(1)] si)
  have c3: "trigger bodies (s\<lparr>tick_repeat := Some (TickRepeat (Function tick_function))\<rparr>) args v
           = (Some (NotImplementedError
                 ''_tick method not implemented by a TickRepeatSkill class.''),
              s\<lparr>tick_repeat := Some (TickRepeat (Function tick_function))\<rparr>, v)"
    by (simp add: trigger_def TickRepeat_def with_module_def TickRepeatSkill_tick_def)
  show ?thesis using c1 c2 c3 m(3) module_registries [OF assms(1)] by blast
qed

lemma module_loaded: "load_module [] = (Skill_class, TickRepeatSkill_class, module_heap)"
  by (simp add: Skill_class_def TickRepeatSkill_class_def module_heap_def)

lemma Regeneration_never_overrides: "never_overrides_tick TickRepeatSkill_class Regeneration"
  by code_simp

lemma Regeneration_super:
  "super_init no_inits Skill_class TickRepeatSkill_class Regeneration 3 100
     = (Inr (Skill_init Regeneration (Some 3)), 100)"
  by code_simp

theorem unimplemented_tick_raises_when_triggered_witness:
  "load_module [] = (Skill_class, TickRepeatSkill_class, module_heap)
   \<and> never_overrides_tick TickRepeatSkill_class Regeneration
   \<and> TickRepeatSkill_init no_inits Skill_class TickRepeatSkill_class Regeneration (Some 3) 100
       = (Inr ((Skill_init Regeneration (Some 3))
                 \<lparr>tick_repeat := Some (TickRepeat (Function tick_function))\<rparr>), 100)
   \<and> trigger scenario_bodies
        ((Skill_init Regeneration (Some 3))
           \<lparr>tick_repeat := Some (TickRepeat (Function tick_function))\<rparr>)
        ''tick'' 100
       = (Some (NotImplementedError ''_tick method not implemented by a TickRepeatSkill class.''),
          (Skill_init Regeneration (Some 3))
            \<lparr>tick_repeat := Some (TickRepeat (Function tick_function))\<rparr>,
          100)
   \<and> module_heap = [DefaultDict [], DefaultDict []]"
proof -
  note t = unimplemented_tick_raises_when_triggered [OF module_loaded Regeneration_never_overrides,
      where inits = no_inits and level_arg = "Some 3" and w = 100 and bodies = scenario_bodies
        and s = "Skill_init Regeneration (Some 3)" and args = "''tick''" and v = 100]
  have c: "TickRepeatSkill_init no_inits Skill_class TickRepeatSkill_class Regeneration (Some 3) 100
       = (Inr ((Skill_init Regeneration (Some 3))
                 \<lparr>tick_repeat := Some (TickRepeat (Function tick_function))\<rparr>), 100)"
    using t Regeneration_super by simp
  have hp: "module_heap = [DefaultDict [], DefaultDict []]" using t by simp
  show ?thesis using module_loaded Regeneration_never_overrides c hp t by blast
qed

text \<open>
  Resolution follows every base. \<open>Mixed\<close> reaches \<^verbatim>\<open>TickRepeatSkill\<close> through its
  second base and never overrides \<^verbatim>\<open>_tick\<close>; \<open>Toxic\<close> binds no \<^verbatim>\<open>_tick\<close> and its
  first base binds none, but its second base overrides it, and that is the function
  found.
\<close>

lemma Mixed_resolution:
  "mro Mixed = Some [Mixed, Slow, TickRepeatSkill_class, Skill_class]"
  "never_overrides_tick TickRepeatSkill_class Mixed"
  "class_lookup Mixed ''_tick'' = Some (Function tick_function)"
  "super_init no_inits Skill_class TickRepeatSkill_class Mixed 0 100
     = (Inr (Skill_init Mixed (Some 0)), 100)"
  by code_simp+

lemma Toxic_resolution:
  "mro Toxic = Some [Toxic, Poison, Burn, TickRepeatSkill_class, Skill_class]"
  "\<not> never_overrides_tick TickRepeatSkill_class Toxic"
  "class_lookup Toxic ''_tick'' = Some (Function burn_tick)"
  by code_simp+

end
